theory Spec2Isabelle
  imports Main "HOL-Library.Sublist"
begin

section \<open>Patch-info modules of DualBootPatcher\<close>

text \<open>
  The three modules under \<^verbatim>\<open>src/patchinfo\<close>
  (\<^verbatim>\<open>Google_Apps/gapps-gummy.py\<close>, \<^verbatim>\<open>jflte/ROMs/AOSP/aosp.py\<close>,
  \<^verbatim>\<open>jflte/ROMs/GoogleEdition/ge-MaKTaiL.py\<close>) have the same shape: a module global
  \<^verbatim>\<open>file_info\<close> filled in by attribute assignments, a module global
  \<^verbatim>\<open>filename_regex\<close>, and the two functions \<^verbatim>\<open>matches\<close> and
  \<^verbatim>\<open>get_file_info\<close>, whose text is the same in the three files.

  Filenames and patterns are \<^typ>\<open>string\<close>s (lists of 8-bit characters). The only library
  call is \<^verbatim>\<open>re.search\<close>; the part of Python's \<^verbatim>\<open>re\<close> that the three patterns
  use is modelled below: parsing of the pattern text and leftmost, greedy, backtracking
  matching.
\<close>

subsection \<open>Python's \<^verbatim>\<open>re\<close>: the fragment used by the three patterns\<close>

text \<open>The line feed, the one character that \<^verbatim>\<open>.\<close> refuses and that \<^verbatim>\<open>$\<close> tolerates
  at the very end of the subject.\<close>

definition newline :: char where
  "newline = CHR 0x0A"

text \<open>The backslash cannot be written inside a string literal of the logic.\<close>

definition backslash :: char where
  "backslash = CHR 0x5C"

text \<open>A pattern element that consumes exactly one character.\<close>

datatype atom =
    Lit char            \<comment> \<open>a literal character, also an escaped one such as \<^verbatim>\<open>\.\<close>\<close>
  | Dot                 \<comment> \<open>\<^verbatim>\<open>.\<close> without DOTALL: any character except the line feed\<close>
  | Between char char     \<comment> \<open>\<^verbatim>\<open>[lo-hi]\<close>\<close>

text \<open>A parsed pattern is a sequence of items: the two anchors, a single atom, or an atom
  under a greedy repetition with a lower bound and an optional upper bound
  (\<^verbatim>\<open>*\<close> is \<open>Rep a 0 None\<close>, \<^verbatim>\<open>+\<close> is \<open>Rep a 1 None\<close>,
  \<^verbatim>\<open>{n}\<close> is \<open>Rep a n (Some n)\<close>).\<close>

datatype item =
    Bol                         \<comment> \<open>\<^verbatim>\<open>^\<close> without MULTILINE: only at index 0\<close>
  | Eol                         \<comment> \<open>\<^verbatim>\<open>$\<close> without MULTILINE: at the end, or before a final line feed\<close>
  | One atom
  | Rep atom nat "nat option"

type_synonym regex = "item list"

datatype re_error = Re_error

fun atom_ok :: "atom \<Rightarrow> char \<Rightarrow> bool" where
  "atom_ok (Lit l) c = (c = l)"
| "atom_ok Dot c = (c \<noteq> newline)"
| "atom_ok (Between lo hi) c = ((of_char lo :: nat) \<le> of_char c \<and> (of_char c :: nat) \<le> of_char hi)"

subsubsection \<open>Parsing the pattern text\<close>

definition is_digit :: "char \<Rightarrow> bool" where
  "is_digit c = ((48::nat) \<le> of_char c \<and> (of_char c :: nat) \<le> 57)"

definition is_alnum :: "char \<Rightarrow> bool" where
  "is_alnum c = (is_digit c
     \<or> ((65::nat) \<le> of_char c \<and> (of_char c :: nat) \<le> 90)
     \<or> ((97::nat) \<le> of_char c \<and> (of_char c :: nat) \<le> 122))"

text \<open>Characters with a meaning of their own at the start of an atom. The parser accepts
  none of them as a literal: alternation, groups, a repetition with nothing to repeat and the
  stray closing brackets are all answered with \<open>None\<close>.\<close>

definition is_special :: "char \<Rightarrow> bool" where
  "is_special c = (c \<in> set ''*+?{}()|[]^$.'' \<or> c = backslash)"

definition is_repeat_char :: "char \<Rightarrow> bool" where
  "is_repeat_char c = (c \<in> set ''*+?{'')"

definition digits_value :: "string \<Rightarrow> nat" where
  "digits_value ds = foldl (\<lambda>n d. 10 * n + (of_char d - 48)) 0 ds"

text \<open>One atom from the front of the pattern, with the text left after it.\<close>

fun parse_atom :: "string \<Rightarrow> (atom \<times> string) option" where
  "parse_atom [] = None"
| "parse_atom (c # cs) =
     (if c = backslash then
        (case cs of
           [] \<Rightarrow> None
         | d # ds \<Rightarrow> if is_alnum d \<or> 128 \<le> (of_char d :: nat) then None else Some (Lit d, ds))
      else if c = CHR ''['' then
        (case cs of
           lo # m # hi # cl # rest \<Rightarrow>
             if m = CHR ''-'' \<and> cl = CHR '']'' \<and> is_alnum lo \<and> is_alnum hi
                \<and> (of_char lo :: nat) \<le> of_char hi
             then Some (Between lo hi, rest) else None
         | _ \<Rightarrow> None)
      else if c = CHR ''.'' then Some (Dot, cs)
      else if is_special c then None
      else Some (Lit c, cs))"

text \<open>The repetition that may follow an atom. A second repetition sign right after the first
  (lazy and possessive forms, or a multiple repeat) is outside the fragment.\<close>

fun parse_repeat :: "atom \<Rightarrow> string \<Rightarrow> (item \<times> string) option" where
  "parse_repeat a [] = Some (One a, [])"
| "parse_repeat a (c # cs) =
     (if c = CHR ''*'' then
        (case cs of d # _ \<Rightarrow> if is_repeat_char d then None else Some (Rep a 0 None, cs)
                  | [] \<Rightarrow> Some (Rep a 0 None, cs))
      else if c = CHR ''+'' then
        (case cs of d # _ \<Rightarrow> if is_repeat_char d then None else Some (Rep a 1 None, cs)
                  | [] \<Rightarrow> Some (Rep a 1 None, cs))
      else if c = CHR ''{'' then
        (let ds = takeWhile is_digit cs; rest = dropWhile is_digit cs in
         case rest of
           [] \<Rightarrow> None
         | cl # rest' \<Rightarrow>
             if ds = [] \<or> cl \<noteq> CHR ''}'' then None
             else (case rest' of
                     d # _ \<Rightarrow> if is_repeat_char d then None
                              else Some (Rep a (digits_value ds) (Some (digits_value ds)), rest')
                   | [] \<Rightarrow> Some (Rep a (digits_value ds) (Some (digits_value ds)), rest')))
      else if c = CHR ''?'' then None
      else Some (One a, c # cs))"

lemma parse_atom_shorter: "parse_atom s = Some (a, r) \<Longrightarrow> length r < length s"
  by (cases s) (auto split: if_splits list.splits)

lemma parse_repeat_shorter: "parse_repeat a s = Some (it, r) \<Longrightarrow> length r \<le> length s"
proof (cases s)
  case Nil
  assume "parse_repeat a s = Some (it, r)"
  with Nil show ?thesis by simp
next
  case (Cons c cs)
  assume p: "parse_repeat a s = Some (it, r)"
  have "length (dropWhile is_digit cs) \<le> length cs"
    by (rule length_dropWhile_le)
  with p Cons show ?thesis
    by (auto simp: Let_def split: if_splits list.splits)
qed

function re_parse :: "string \<Rightarrow> regex option" where
  "re_parse [] = Some []"
| "re_parse (c # cs) =
     (if c = CHR ''^'' then
        (case re_parse cs of None \<Rightarrow> None | Some r \<Rightarrow> Some (Bol # r))
      else if c = CHR ''$'' then
        (case re_parse cs of None \<Rightarrow> None | Some r \<Rightarrow> Some (Eol # r))
      else
        (case parse_atom (c # cs) of
           None \<Rightarrow> None
         | Some (a, rest) \<Rightarrow>
             (case parse_repeat a rest of
                None \<Rightarrow> None
              | Some (it, rest') \<Rightarrow>
                  (case re_parse rest' of None \<Rightarrow> None | Some r \<Rightarrow> Some (it # r)))))"
  by pat_completeness auto
termination
proof (relation "measure length")
  show "wf (measure length)" by simp
next
  fix c :: char and cs :: string
  show "(cs, c # cs) \<in> measure length" by simp
next
  fix c :: char and cs :: string
  show "(cs, c # cs) \<in> measure length" by simp
next
  fix c :: char and cs :: string and x2 :: "atom \<times> string" and a rest
    and x2a :: "item \<times> string" and it rest'
  assume "parse_atom (c # cs) = Some x2" "(a, rest) = x2"
    "parse_repeat a rest = Some x2a" "(it, rest') = x2a"
  then have "length rest < length (c # cs)" "length rest' \<le> length rest"
    using parse_atom_shorter [of "c # cs" a rest] parse_repeat_shorter [of a rest it rest']
    by simp_all
  then show "(rest', c # cs) \<in> measure length" by simp
qed

text \<open>\<^verbatim>\<open>re.compile\<close>: a pattern that does not parse raises \<^verbatim>\<open>re.error\<close>.\<close>

definition re_compile :: "string \<Rightarrow> re_error + regex" where
  "re_compile pattern = (case re_parse pattern of None \<Rightarrow> Inl Re_error | Some r \<Rightarrow> Inr r)"

subsubsection \<open>Matching\<close>

text \<open>The upper bound of a repetition after one more character has been taken.\<close>

fun dec :: "nat option \<Rightarrow> nat option" where
  "dec None = None"
| "dec (Some h) = Some (h - 1)"

text \<open>
  \<open>match_here r i s\<close> matches the items \<open>r\<close> at index \<open>i\<close> of the subject, whose text from
  \<open>i\<close> on is \<open>s\<close>, and returns the index where the first match in backtracking order ends.
  A repetition is greedy: it takes a further character while it can, and gives characters
  back one at a time when the rest of the pattern fails.
\<close>

fun match_here :: "regex \<Rightarrow> nat \<Rightarrow> string \<Rightarrow> nat option" where
  "match_here [] i s = Some i"
| "match_here (Bol # r) i s = (if i = 0 then match_here r i s else None)"
| "match_here (Eol # r) i s = (if s = [] \<or> s = [newline] then match_here r i s else None)"
| "match_here (One a # r) i [] = None"
| "match_here (One a # r) i (c # cs) = (if atom_ok a c then match_here r (Suc i) cs else None)"
| "match_here (Rep a lo hi # r) i [] = (if lo = 0 then match_here r i [] else None)"
| "match_here (Rep a lo hi # r) i (c # cs) =
     (case (if atom_ok a c \<and> hi \<noteq> Some 0
            then match_here (Rep a (lo - 1) (dec hi) # r) (Suc i) cs else None) of
        Some e \<Rightarrow> Some e
      | None \<Rightarrow> if lo = 0 then match_here r i (c # cs) else None)"

text \<open>\<^verbatim>\<open>search\<close> tries every start index from the left and returns the span of the first
  match, or \<open>None\<close>.\<close>

fun search_from :: "regex \<Rightarrow> nat \<Rightarrow> string \<Rightarrow> (nat \<times> nat) option" where
  "search_from r i [] = (case match_here r i [] of Some e \<Rightarrow> Some (i, e) | None \<Rightarrow> None)"
| "search_from r i (c # cs) =
     (case match_here r i (c # cs) of Some e \<Rightarrow> Some (i, e) | None \<Rightarrow> search_from r (Suc i) cs)"

text \<open>\<^verbatim>\<open>re.search(pattern, string)\<close>: the match object (here its span) or \<open>None\<close>.\<close>

definition re_search :: "string \<Rightarrow> string \<Rightarrow> re_error + (nat \<times> nat) option" where
  "re_search pattern s =
     (case re_compile pattern of Inl e \<Rightarrow> Inl e | Inr r \<Rightarrow> Inr (search_from r 0 s))"

subsection \<open>The descriptor and the modules\<close>

text \<open>The two hooks of \<^verbatim>\<open>multiboot.autopatcher\<close> that the modules store by reference.\<close>

datatype hook = auto_patch | files_to_auto_patch

text \<open>Modelled from the spec: the class \<^verbatim>\<open>multiboot.fileinfo.FileInfo\<close> and its
  constructor, which are not among the sources. The spec gives the descriptor a display name, an
  optional ramdisk reference (\<^verbatim>\<open>None\<close> when there is none), the flag
  \<^verbatim>\<open>has_boot_image\<close> with default true, and the references to the extraction and patch
  behaviours; an attribute that no default is given for is unset (\<open>None\<close>) in a new
  object.\<close>

record FileInfo =
  name :: "string option"
  ramdisk :: "string option"
  has_boot_image :: bool
  patch :: "hook option"
  extract' :: "hook option"

definition FileInfo_init :: FileInfo where
  "FileInfo_init =
     \<lparr>name = None, ramdisk = None, has_boot_image = True, patch = None, extract' = None\<rparr>"

text \<open>The globals of one module.\<close>

record py_module =
  file_info :: FileInfo
  filename_regex :: string

text \<open>The top-level statements of \<^verbatim>\<open>Google_Apps/gapps-gummy.py\<close>.\<close>

definition gapps_gummy :: py_module where
  "gapps_gummy =
     (let g = \<lparr>file_info = FileInfo_init, filename_regex = []\<rparr>;
          g = g\<lparr>filename_regex := ''^gapps-kk-[0-9]{8}'' @ [backslash] @ ''.zip$''\<rparr>;
          g = g\<lparr>file_info := (file_info g)\<lparr>name := Some ''Gummy Google Apps''\<rparr>\<rparr>;
          g = g\<lparr>file_info := (file_info g)\<lparr>patch := Some auto_patch\<rparr>\<rparr>;
          g = g\<lparr>file_info := (file_info g)\<lparr>extract' := Some files_to_auto_patch\<rparr>\<rparr>;
          g = g\<lparr>file_info := (file_info g)\<lparr>has_boot_image := False\<rparr>\<rparr>
      in g)"

text \<open>The top-level statements of \<^verbatim>\<open>jflte/ROMs/AOSP/aosp.py\<close>.\<close>

definition aosp :: py_module where
  "aosp =
     (let g = \<lparr>file_info = FileInfo_init, filename_regex = []\<rparr>;
          g = g\<lparr>filename_regex := ''^aosp[0-9]+-i9505-.*'' @ [backslash] @ ''.zip$''\<rparr>;
          g = g\<lparr>file_info := (file_info g)\<lparr>name := Some ''Broodplank's AOSP''\<rparr>\<rparr>;
          g = g\<lparr>file_info := (file_info g)\<lparr>ramdisk := Some ''jflte/AOSP/AOSP.def''\<rparr>\<rparr>;
          g = g\<lparr>file_info := (file_info g)\<lparr>patch := Some auto_patch\<rparr>\<rparr>;
          g = g\<lparr>file_info := (file_info g)\<lparr>extract' := Some files_to_auto_patch\<rparr>\<rparr>
      in g)"

text \<open>The top-level statements of \<^verbatim>\<open>jflte/ROMs/GoogleEdition/ge-MaKTaiL.py\<close>.\<close>

definition ge_MaKTaiL :: py_module where
  "ge_MaKTaiL =
     (let g = \<lparr>file_info = FileInfo_init, filename_regex = []\<rparr>;
          g = g\<lparr>filename_regex := ''^i9505-ge-untouched-4.3-.*.zip$''\<rparr>;
          g = g\<lparr>file_info := (file_info g)\<lparr>name := Some ''MaKTaiL's Google Edition''\<rparr>\<rparr>;
          g = g\<lparr>file_info :=
                (file_info g)\<lparr>ramdisk := Some ''jflte/GoogleEdition/GoogleEdition.def''\<rparr>\<rparr>;
          g = g\<lparr>file_info := (file_info g)\<lparr>patch := Some auto_patch\<rparr>\<rparr>;
          g = g\<lparr>file_info := (file_info g)\<lparr>extract' := Some files_to_auto_patch\<rparr>\<rparr>
      in g)"

text \<open>
  \<^verbatim>\<open>matches(filename)\<close> and \<^verbatim>\<open>get_file_info()\<close>, the same text in the three modules.
  Both read the module's globals and assign none; they take the globals and return them,
  unchanged, with the result. An exception of \<^verbatim>\<open>re.search\<close> would pass through
  \<^verbatim>\<open>matches\<close>.
\<close>

definition matches :: "string \<Rightarrow> py_module \<Rightarrow> (re_error + bool) \<times> py_module" where
  "matches filename g =
     (case re_search (filename_regex g) filename of
        Inl e \<Rightarrow> (Inl e, g)
      | Inr m \<Rightarrow> if m \<noteq> None then (Inr True, g) else (Inr False, g))"

definition get_file_info :: "py_module \<Rightarrow> FileInfo \<times> py_module" where
  "get_file_info g = (file_info g, g)"

subsection \<open>Notions used to state the properties\<close>

text \<open>Upper-casing of the ASCII letters of a filename; every other character is kept.\<close>

definition is_lower :: "char \<Rightarrow> bool" where
  "is_lower c = ((97::nat) \<le> of_char c \<and> (of_char c :: nat) \<le> 122)"

definition to_upper :: "char \<Rightarrow> char" where
  "to_upper c = (if is_lower c then char_of ((of_char c :: nat) - 32) else c)"

definition upper :: "string \<Rightarrow> string" where
  "upper s = map to_upper s"

text \<open>A filename without its final line feed, when it has one.\<close>

definition chomp :: "string \<Rightarrow> string" where
  "chomp g = (if g \<noteq> [] \<and> last g = newline then butlast g else g)"

section \<open>The compiled patterns\<close>

lemma gapps_gummy_regex:
  "re_compile (filename_regex gapps_gummy) =
     Inr (Bol # map (\<lambda>c. One (Lit c)) ''gapps-kk-'' @ Rep (Between CHR ''0'' CHR ''9'') 8 (Some 8)
            # map (\<lambda>c. One (Lit c)) ''.zip'' @ [Eol])"
  by (simp add: gapps_gummy_def re_compile_def is_special_def is_alnum_def is_digit_def
      is_repeat_char_def backslash_def digits_value_def Let_def)

lemma aosp_regex:
  "re_compile (filename_regex aosp) =
     Inr (Bol # map (\<lambda>c. One (Lit c)) ''aosp'' @ Rep (Between CHR ''0'' CHR ''9'') 1 None
            # map (\<lambda>c. One (Lit c)) ''-i9505-'' @ Rep Dot 0 None
            # map (\<lambda>c. One (Lit c)) ''.zip'' @ [Eol])"
  by (simp add: aosp_def re_compile_def is_special_def is_alnum_def is_digit_def
      is_repeat_char_def backslash_def digits_value_def Let_def)

lemma ge_MaKTaiL_regex:
  "re_compile (filename_regex ge_MaKTaiL) =
     Inr (Bol # map (\<lambda>c. One (Lit c)) ''i9505-ge-untouched-4'' @ One Dot
            # map (\<lambda>c. One (Lit c)) ''3-'' @ Rep Dot 0 None # One Dot
            # map (\<lambda>c. One (Lit c)) ''zip'' @ [Eol])"
  by (simp add: ge_MaKTaiL_def re_compile_def is_special_def is_alnum_def is_digit_def
      is_repeat_char_def backslash_def digits_value_def Let_def)

section \<open>Evaluation on concrete filenames\<close>

text \<open>C6. On the empty filename each of the three modules' \<^verbatim>\<open>matches\<close> returns
  \<^verbatim>\<open>False\<close>: the result is a value \<open>Inr False\<close>, not an error \<open>Inl e\<close>.\<close>

theorem matches_empty_filename:
  "fst (matches [] gapps_gummy) = Inr False
   \<and> fst (matches [] aosp) = Inr False
   \<and> fst (matches [] ge_MaKTaiL) = Inr False"
  by (simp add: matches_def re_search_def gapps_gummy_regex aosp_regex ge_MaKTaiL_regex)

text \<open>C7. The AOSP module's \<^verbatim>\<open>matches\<close> returns \<^verbatim>\<open>True\<close> on
  \<^verbatim>\<open>aosp4-i9505-build.zip\<close> and \<^verbatim>\<open>False\<close> on the renamed
  \<^verbatim>\<open>aosp4-i9505-build.tar\<close>.\<close>

theorem aosp_rename_stops_matching:
  "fst (matches ''aosp4-i9505-build.zip'' aosp) = Inr True
   \<and> fst (matches ''aosp4-i9505-build.tar'' aosp) = Inr False"
  by (simp add: matches_def re_search_def aosp_regex newline_def)

text \<open>C2. On \<^verbatim>\<open>gapps-kk-20140615.zip\<close> the Gummy Google Apps module's
  \<^verbatim>\<open>matches\<close> returns \<^verbatim>\<open>True\<close>, and the descriptor returned by its
  \<^verbatim>\<open>get_file_info\<close> has the name \<^verbatim>\<open>Gummy Google Apps\<close>,
  \<^verbatim>\<open>has_boot_image\<close> false and no ramdisk reference (the constructor's value, which
  the module never assigns).\<close>

theorem gummy_scenario:
  "fst (matches ''gapps-kk-20140615.zip'' gapps_gummy) = Inr True
   \<and> name (fst (get_file_info gapps_gummy)) = Some ''Gummy Google Apps''
   \<and> has_boot_image (fst (get_file_info gapps_gummy)) = False
   \<and> ramdisk (fst (get_file_info gapps_gummy)) = None"
proof -
  have "fst (matches ''gapps-kk-20140615.zip'' gapps_gummy) = Inr True"
    by (simp add: matches_def re_search_def gapps_gummy_regex newline_def)
  moreover have "fst (get_file_info gapps_gummy) =
      \<lparr>name = Some ''Gummy Google Apps'', ramdisk = None, has_boot_image = False,
       patch = Some auto_patch, extract' = Some files_to_auto_patch\<rparr>"
    by (simp add: get_file_info_def gapps_gummy_def FileInfo_init_def)
  ultimately show ?thesis by simp
qed

text \<open>C3. On \<^verbatim>\<open>aosp4-i9505-nightly.zip\<close> the AOSP module's \<^verbatim>\<open>matches\<close>
  returns \<^verbatim>\<open>True\<close>, and the descriptor returned by its \<^verbatim>\<open>get_file_info\<close>
  has the ramdisk \<^verbatim>\<open>jflte/AOSP/AOSP.def\<close> and \<^verbatim>\<open>has_boot_image\<close> true
  (the constructor's default, which the module never assigns).\<close>

theorem aosp_scenario:
  "fst (matches ''aosp4-i9505-nightly.zip'' aosp) = Inr True
   \<and> ramdisk (fst (get_file_info aosp)) = Some ''jflte/AOSP/AOSP.def''
   \<and> has_boot_image (fst (get_file_info aosp)) = True"
proof -
  have "fst (matches ''aosp4-i9505-nightly.zip'' aosp) = Inr True"
    by (simp add: matches_def re_search_def aosp_regex newline_def)
  moreover have "fst (get_file_info aosp) =
      \<lparr>name = Some ''Broodplank's AOSP'', ramdisk = Some ''jflte/AOSP/AOSP.def'',
       has_boot_image = True, patch = Some auto_patch, extract' = Some files_to_auto_patch\<rparr>"
    by (simp add: get_file_info_def aosp_def FileInfo_init_def)
  ultimately show ?thesis by simp
qed

text \<open>C4. On \<^verbatim>\<open>i9505-ge-untouched-4.3-release.zip\<close> the Google Edition module's
  \<^verbatim>\<open>matches\<close> returns \<^verbatim>\<open>True\<close>, and the descriptor returned by its
  \<^verbatim>\<open>get_file_info\<close> has the ramdisk
  \<^verbatim>\<open>jflte/GoogleEdition/GoogleEdition.def\<close>.\<close>

theorem ge_scenario:
  "fst (matches ''i9505-ge-untouched-4.3-release.zip'' ge_MaKTaiL) = Inr True
   \<and> ramdisk (fst (get_file_info ge_MaKTaiL)) = Some ''jflte/GoogleEdition/GoogleEdition.def''"
proof -
  have "fst (matches ''i9505-ge-untouched-4.3-release.zip'' ge_MaKTaiL) = Inr True"
    by (simp add: matches_def re_search_def ge_MaKTaiL_regex newline_def)
  moreover have "fst (get_file_info ge_MaKTaiL) =
      \<lparr>name = Some ''MaKTaiL's Google Edition'',
       ramdisk = Some ''jflte/GoogleEdition/GoogleEdition.def'',
       has_boot_image = True, patch = Some auto_patch, extract' = Some files_to_auto_patch\<rparr>"
    by (simp add: get_file_info_def ge_MaKTaiL_def FileInfo_init_def)
  ultimately show ?thesis by simp
qed

text \<open>C10. The dots of the Google Edition pattern are not escaped: \<^verbatim>\<open>matches\<close>
  returns \<^verbatim>\<open>True\<close> on \<^verbatim>\<open>i9505-ge-untouched-4x3-relzip\<close>, a filename that
  neither ends in \<^verbatim>\<open>.zip\<close> nor contains \<^verbatim>\<open>4.3\<close>.\<close>

theorem ge_unescaped_dots:
  "fst (matches ''i9505-ge-untouched-4x3-relzip'' ge_MaKTaiL) = Inr True
   \<and> \<not> suffix ''.zip'' ''i9505-ge-untouched-4x3-relzip''
   \<and> \<not> sublist ''4.3'' ''i9505-ge-untouched-4x3-relzip''"
proof -
  have "fst (matches ''i9505-ge-untouched-4x3-relzip'' ge_MaKTaiL) = Inr True"
    by (simp add: matches_def re_search_def ge_MaKTaiL_regex newline_def)
  moreover have "\<not> suffix ''.zip'' ''i9505-ge-untouched-4x3-relzip''"
    by code_simp
  moreover have "\<not> sublist ''4.3'' ''i9505-ge-untouched-4x3-relzip''"
    by code_simp
  ultimately show ?thesis by simp
qed

section \<open>The languages of the three patterns\<close>

subsection \<open>What each kind of item accepts\<close>

lemma match_here_lits:
  "match_here (map (\<lambda>c. One (Lit c)) l @ r) i s =
     (if prefix l s then match_here r (i + length l) (drop (length l) s) else None)"
proof (induction l arbitrary: i s)
  case Nil
  show ?case by simp
next
  case (Cons x l)
  show ?case by (cases s) (simp_all add: Cons)
qed

lemma rep_step:
  "match_here (Rep a lo hi # r) i (c # cs) \<noteq> None \<longleftrightarrow>
     (atom_ok a c \<and> hi \<noteq> Some 0 \<and> match_here (Rep a (lo - 1) (dec hi) # r) (Suc i) cs \<noteq> None)
     \<or> (lo = 0 \<and> match_here r i (c # cs) \<noteq> None)"
  by (auto split: option.splits if_splits)

lemma match_here_rep:
  "match_here (Rep a lo hi # r) i s \<noteq> None \<longleftrightarrow>
     (\<exists>n\<le>length s. lo \<le> n \<and> (\<forall>h. hi = Some h \<longrightarrow> n \<le> h) \<and> (\<forall>c\<in>set (take n s). atom_ok a c)
        \<and> match_here r (i + n) (drop n s) \<noteq> None)"
  (is "?L lo hi i s \<longleftrightarrow> ?R lo hi i s")
proof (induction s arbitrary: lo hi i)
  case Nil
  show ?case by auto
next
  case (Cons c cs)
  show ?case
  proof
    assume "?L lo hi i (c # cs)"
    then consider
        (take) "atom_ok a c" "hi \<noteq> Some 0" "?L (lo - 1) (dec hi) (Suc i) cs"
      | (stop) "lo = 0" "match_here r i (c # cs) \<noteq> None"
      unfolding rep_step by blast
    then show "?R lo hi i (c # cs)"
    proof cases
      case take
      from take(3) obtain n where n: "n \<le> length cs" "lo - 1 \<le> n"
          "\<forall>h. dec hi = Some h \<longrightarrow> n \<le> h" "\<forall>c\<in>set (take n cs). atom_ok a c"
          "match_here r (Suc i + n) (drop n cs) \<noteq> None"
        unfolding Cons.IH by blast
      have "\<forall>h. hi = Some h \<longrightarrow> Suc n \<le> h"
        using n(3) take(2) by (cases hi) auto
      with n take(1) show ?thesis
        by (intro exI [of _ "Suc n"]) auto
    next
      case stop
      then show ?thesis by (intro exI [of _ 0]) simp
    qed
  next
    assume "?R lo hi i (c # cs)"
    then obtain n where n: "n \<le> length (c # cs)" "lo \<le> n" "\<forall>h. hi = Some h \<longrightarrow> n \<le> h"
        "\<forall>x\<in>set (take n (c # cs)). atom_ok a x" "match_here r (i + n) (drop n (c # cs)) \<noteq> None"
      by blast
    show "?L lo hi i (c # cs)"
    proof (cases n)
      case 0
      with n show ?thesis unfolding rep_step by simp
    next
      case (Suc m)
      have "\<forall>h. dec hi = Some h \<longrightarrow> m \<le> h"
        using n(3) Suc by (cases hi) auto
      with n Suc have "?R (lo - 1) (dec hi) (Suc i) cs"
        by (intro exI [of _ m]) auto
      then have "?L (lo - 1) (dec hi) (Suc i) cs"
        unfolding Cons.IH .
      moreover have "atom_ok a c" "hi \<noteq> Some 0"
        using n(3,4) Suc by auto
      ultimately show ?thesis unfolding rep_step by blast
    qed
  qed
qed

lemma lits_iff:
  "match_here (map (\<lambda>c. One (Lit c)) l @ r) i s \<noteq> None \<longleftrightarrow>
     (\<exists>t. s = l @ t \<and> match_here r (i + length l) t \<noteq> None)"
  by (auto simp: match_here_lits prefix_def)

lemma rep_iff:
  "match_here (Rep a lo hi # r) i s \<noteq> None \<longleftrightarrow>
     (\<exists>u t. s = u @ t \<and> lo \<le> length u \<and> (\<forall>h. hi = Some h \<longrightarrow> length u \<le> h)
        \<and> (\<forall>c\<in>set u. atom_ok a c) \<and> match_here r (i + length u) t \<noteq> None)"
proof
  assume "match_here (Rep a lo hi # r) i s \<noteq> None"
  then obtain n where n: "n \<le> length s" "lo \<le> n" "\<forall>h. hi = Some h \<longrightarrow> n \<le> h"
      "\<forall>c\<in>set (take n s). atom_ok a c" "match_here r (i + n) (drop n s) \<noteq> None"
    unfolding match_here_rep by blast
  then show "\<exists>u t. s = u @ t \<and> lo \<le> length u \<and> (\<forall>h. hi = Some h \<longrightarrow> length u \<le> h)
        \<and> (\<forall>c\<in>set u. atom_ok a c) \<and> match_here r (i + length u) t \<noteq> None"
    by (intro exI [of _ "take n s"] exI [of _ "drop n s"]) (simp add: min_absorb2)
next
  assume "\<exists>u t. s = u @ t \<and> lo \<le> length u \<and> (\<forall>h. hi = Some h \<longrightarrow> length u \<le> h)
        \<and> (\<forall>c\<in>set u. atom_ok a c) \<and> match_here r (i + length u) t \<noteq> None"
  then obtain u t where "s = u @ t" "lo \<le> length u" "\<forall>h. hi = Some h \<longrightarrow> length u \<le> h"
      "\<forall>c\<in>set u. atom_ok a c" "match_here r (i + length u) t \<noteq> None"
    by blast
  then show "match_here (Rep a lo hi # r) i s \<noteq> None"
    unfolding match_here_rep by (intro exI [of _ "length u"]) simp
qed

lemma one_iff:
  "match_here (One a # r) i s \<noteq> None \<longleftrightarrow>
     (\<exists>c t. s = c # t \<and> atom_ok a c \<and> match_here r (Suc i) t \<noteq> None)"
  by (cases s) auto

lemma eol_iff: "match_here [Eol] i s \<noteq> None \<longleftrightarrow> s = [] \<or> s = [newline]"
  by simp

subsection \<open>A pattern that starts with the anchor is tried at index 0 only\<close>

lemma search_from_Bol_later: "0 < i \<Longrightarrow> search_from (Bol # r) i s = None"
  by (induction s arbitrary: i) simp_all

lemma search_from_Bol:
  "search_from (Bol # r) 0 s \<noteq> None \<longleftrightarrow> match_here r 0 s \<noteq> None"
  by (cases s) (auto simp: search_from_Bol_later split: option.splits)

lemma matches_anchored:
  assumes "re_compile (filename_regex g) = Inr (Bol # r)"
  shows "fst (matches f g) = Inr (match_here r 0 f \<noteq> None)"
  using search_from_Bol [of r f] by (auto simp: matches_def re_search_def assms)

lemma digit_ok: "atom_ok (Between CHR ''0'' CHR ''9'') c = is_digit c"
  by (simp add: is_digit_def)

subsection \<open>The filenames each module accepts\<close>

lemma litsI:
  "match_here r (i + length l) t \<noteq> None \<Longrightarrow> match_here (map (\<lambda>c. One (Lit c)) l @ r) i (l @ t) \<noteq> None"
  by (simp add: match_here_lits)

lemma repI:
  "lo \<le> length u \<Longrightarrow> (\<forall>h. hi = Some h \<longrightarrow> length u \<le> h) \<Longrightarrow> (\<forall>c\<in>set u. atom_ok a c)
     \<Longrightarrow> match_here r (i + length u) t \<noteq> None \<Longrightarrow> match_here (Rep a lo hi # r) i (u @ t) \<noteq> None"
  unfolding rep_iff by blast

lemma oneI:
  "atom_ok a c \<Longrightarrow> match_here r (Suc i) t \<noteq> None \<Longrightarrow> match_here (One a # r) i ([c] @ t) \<noteq> None"
  by simp

lemma eolI: "e = [] \<or> e = [newline] \<Longrightarrow> match_here [Eol] i e \<noteq> None"
  by auto

lemma gapps_gummy_language:
  "fst (matches f gapps_gummy) = Inr True \<longleftrightarrow>
     (\<exists>d e. f = ''gapps-kk-'' @ d @ ''.zip'' @ e \<and> length d = 8 \<and> (\<forall>c\<in>set d. is_digit c)
        \<and> (e = [] \<or> e = [newline]))"
  (is "?L \<longleftrightarrow> ?R")
proof
  assume ?L
  then obtain t u t' e where "f = ''gapps-kk-'' @ t" "t = u @ t'" "8 \<le> length u"
      "\<forall>h. Some 8 = Some h \<longrightarrow> length u \<le> h" "\<forall>c\<in>set u. is_digit c"
      "t' = ''.zip'' @ e" "e = [] \<or> e = [newline]"
    unfolding matches_anchored [OF gapps_gummy_regex] sum.inject eq_True
      lits_iff rep_iff eol_iff digit_ok
    by blast
  then have "f = ''gapps-kk-'' @ u @ ''.zip'' @ e \<and> length u = 8 \<and> (\<forall>c\<in>set u. is_digit c)
      \<and> (e = [] \<or> e = [newline])"
    by auto
  then show ?R by blast
next
  assume ?R
  then obtain d e where f: "f = ''gapps-kk-'' @ d @ ''.zip'' @ e"
    and d: "length d = 8" "\<forall>c\<in>set d. is_digit c" and e: "e = [] \<or> e = [newline]"
    by blast
  show ?L
    unfolding matches_anchored [OF gapps_gummy_regex] sum.inject simp_thms f
    by (intro litsI repI eolI) (use d e in \<open>simp_all add: is_digit_def\<close>)
qed

lemma aosp_language:
  "fst (matches f aosp) = Inr True \<longleftrightarrow>
     (\<exists>d m e. f = ''aosp'' @ d @ ''-i9505-'' @ m @ ''.zip'' @ e \<and> d \<noteq> [] \<and> (\<forall>c\<in>set d. is_digit c)
        \<and> newline \<notin> set m \<and> (e = [] \<or> e = [newline]))"
  (is "?L \<longleftrightarrow> ?R")
proof
  assume ?L
  then obtain t u t' t'' v w e where "f = ''aosp'' @ t" "t = u @ t'" "1 \<le> length u"
      "\<forall>c\<in>set u. is_digit c" "t' = ''-i9505-'' @ t''" "t'' = v @ w"
      "\<forall>c\<in>set v. atom_ok Dot c" "w = ''.zip'' @ e" "e = [] \<or> e = [newline]"
    unfolding matches_anchored [OF aosp_regex] sum.inject eq_True
      lits_iff rep_iff eol_iff digit_ok
    by blast
  then have "f = ''aosp'' @ u @ ''-i9505-'' @ v @ ''.zip'' @ e \<and> u \<noteq> [] \<and> (\<forall>c\<in>set u. is_digit c)
      \<and> newline \<notin> set v \<and> (e = [] \<or> e = [newline])"
    by auto
  then show ?R by blast
next
  assume ?R
  then obtain d m e where f: "f = ''aosp'' @ d @ ''-i9505-'' @ m @ ''.zip'' @ e"
    and d: "d \<noteq> []" "\<forall>c\<in>set d. is_digit c" and m: "newline \<notin> set m"
    and e: "e = [] \<or> e = [newline]"
    by blast
  show ?L
    unfolding matches_anchored [OF aosp_regex] sum.inject simp_thms f
    by (intro litsI repI eolI) (use d m e in \<open>auto simp: is_digit_def Suc_le_eq\<close>)
qed

lemma ge_MaKTaiL_language:
  "fst (matches f ge_MaKTaiL) = Inr True \<longleftrightarrow>
     (\<exists>x m y e. f = ''i9505-ge-untouched-4'' @ [x] @ ''3-'' @ m @ [y] @ ''zip'' @ e
        \<and> x \<noteq> newline \<and> newline \<notin> set m \<and> y \<noteq> newline \<and> (e = [] \<or> e = [newline]))"
  (is "?L \<longleftrightarrow> ?R")
proof
  assume ?L
  then obtain t x t' t'' v w y w' e where "f = ''i9505-ge-untouched-4'' @ t" "t = x # t'"
      "atom_ok Dot x" "t' = ''3-'' @ t''" "t'' = v @ w" "\<forall>c\<in>set v. atom_ok Dot c"
      "w = y # w'" "atom_ok Dot y" "w' = ''zip'' @ e" "e = [] \<or> e = [newline]"
    unfolding matches_anchored [OF ge_MaKTaiL_regex] sum.inject eq_True
      lits_iff rep_iff eol_iff one_iff
    by blast
  then have "f = ''i9505-ge-untouched-4'' @ [x] @ ''3-'' @ v @ [y] @ ''zip'' @ e
      \<and> x \<noteq> newline \<and> newline \<notin> set v \<and> y \<noteq> newline \<and> (e = [] \<or> e = [newline])"
    by auto
  then show ?R by blast
next
  assume ?R
  then obtain x m y e where f: "f = ''i9505-ge-untouched-4'' @ [x] @ ''3-'' @ m @ [y] @ ''zip'' @ e"
    and x: "x \<noteq> newline" and m: "newline \<notin> set m" and y: "y \<noteq> newline"
    and e: "e = [] \<or> e = [newline]"
    by blast
  show ?L
    unfolding matches_anchored [OF ge_MaKTaiL_regex] sum.inject simp_thms f
    by (intro litsI repI oneI eolI) (use x m y e in auto)
qed

section \<open>Properties of every filename\<close>

text \<open>The three patterns compile, so \<^verbatim>\<open>matches\<close> never raises: a result that is
  not \<open>Inr True\<close> is \<open>Inr False\<close>.\<close>

lemma matches_no_error:
  assumes "re_compile (filename_regex g) = Inr (Bol # r)"
  shows "fst (matches f g) \<noteq> Inr True \<Longrightarrow> fst (matches f g) = Inr False"
  unfolding matches_anchored [OF assms] by simp

text \<open>Each pattern fixes the first character of the filenames it accepts.\<close>

lemma gapps_gummy_head: "fst (matches f gapps_gummy) = Inr True \<Longrightarrow> \<exists>t. f = CHR ''g'' # t"
  unfolding gapps_gummy_language by auto

lemma aosp_head: "fst (matches f aosp) = Inr True \<Longrightarrow> \<exists>t. f = CHR ''a'' # t"
  unfolding aosp_language by auto

lemma ge_MaKTaiL_head: "fst (matches f ge_MaKTaiL) = Inr True \<Longrightarrow> \<exists>t. f = CHR ''i'' # t"
  unfolding ge_MaKTaiL_language by auto

text \<open>C1. For every filename, at most one of the three modules' \<^verbatim>\<open>matches\<close>
  returns \<^verbatim>\<open>True\<close>: among the three descriptors there is never more than one
  candidate.\<close>

theorem matchers_pairwise_disjoint:
  "length (filter (\<lambda>g. fst (matches f g) = Inr True) [gapps_gummy, aosp, ge_MaKTaiL]) \<le> 1"
  using gapps_gummy_head [of f] aosp_head [of f] ge_MaKTaiL_head [of f] by auto

subsection \<open>Case\<close>

lemma upper_head:
  "upper (CHR ''g'' # t) = CHR ''G'' # upper t"
  "upper (CHR ''a'' # t) = CHR ''A'' # upper t"
  "upper (CHR ''i'' # t) = CHR ''I'' # upper t"
proof -
  have "to_upper CHR ''g'' = CHR ''G''" "to_upper CHR ''a'' = CHR ''A''"
    "to_upper CHR ''i'' = CHR ''I''"
    by code_simp+
  then show "upper (CHR ''g'' # t) = CHR ''G'' # upper t"
    "upper (CHR ''a'' # t) = CHR ''A'' # upper t"
    "upper (CHR ''i'' # t) = CHR ''I'' # upper t"
    by (simp_all add: upper_def)
qed

text \<open>C8. Matching is case-sensitive: for each of the three modules, when
  \<^verbatim>\<open>matches\<close> returns \<^verbatim>\<open>True\<close> on a filename it returns
  \<^verbatim>\<open>False\<close> on the filename with its letters in upper case; in particular the Gummy
  Google Apps module accepts \<^verbatim>\<open>gapps-kk-20140615.zip\<close> and refuses
  \<^verbatim>\<open>GAPPS-KK-20140615.ZIP\<close>.\<close>

theorem matches_case_sensitive:
  "(fst (matches f gapps_gummy) = Inr True \<longrightarrow> fst (matches (upper f) gapps_gummy) = Inr False)
   \<and> (fst (matches f aosp) = Inr True \<longrightarrow> fst (matches (upper f) aosp) = Inr False)
   \<and> (fst (matches f ge_MaKTaiL) = Inr True \<longrightarrow> fst (matches (upper f) ge_MaKTaiL) = Inr False)
   \<and> fst (matches ''gapps-kk-20140615.zip'' gapps_gummy) = Inr True
   \<and> upper ''gapps-kk-20140615.zip'' = ''GAPPS-KK-20140615.ZIP''
   \<and> fst (matches ''GAPPS-KK-20140615.ZIP'' gapps_gummy) = Inr False"
proof -
  have "fst (matches (upper f) gapps_gummy) = Inr False" if "fst (matches f gapps_gummy) = Inr True"
  proof (rule matches_no_error [OF gapps_gummy_regex], rule notI)
    assume "fst (matches (upper f) gapps_gummy) = Inr True"
    with that show False
      by (auto dest!: gapps_gummy_head simp: upper_head)
  qed
  moreover have "fst (matches (upper f) aosp) = Inr False" if "fst (matches f aosp) = Inr True"
  proof (rule matches_no_error [OF aosp_regex], rule notI)
    assume "fst (matches (upper f) aosp) = Inr True"
    with that show False
      by (auto dest!: aosp_head simp: upper_head)
  qed
  moreover have "fst (matches (upper f) ge_MaKTaiL) = Inr False"
    if "fst (matches f ge_MaKTaiL) = Inr True"
  proof (rule matches_no_error [OF ge_MaKTaiL_regex], rule notI)
    assume "fst (matches (upper f) ge_MaKTaiL) = Inr True"
    with that show False
      by (auto dest!: ge_MaKTaiL_head simp: upper_head)
  qed
  moreover have "fst (matches ''gapps-kk-20140615.zip'' gapps_gummy) = Inr True"
    by (simp add: matches_def re_search_def gapps_gummy_regex newline_def)
  moreover have "upper ''gapps-kk-20140615.zip'' = ''GAPPS-KK-20140615.ZIP''"
    by code_simp
  moreover have "fst (matches ''GAPPS-KK-20140615.ZIP'' gapps_gummy) = Inr False"
    by (simp add: matches_def re_search_def gapps_gummy_regex newline_def)
  ultimately show ?thesis by blast
qed

text \<open>The three implications of C8 at one accepted filename per module.\<close>

theorem matches_case_sensitive_witness:
  "fst (matches ''gapps-kk-20140615.zip'' gapps_gummy) = Inr True
   \<and> fst (matches (upper ''gapps-kk-20140615.zip'') gapps_gummy) = Inr False
   \<and> fst (matches ''aosp4-i9505-nightly.zip'' aosp) = Inr True
   \<and> fst (matches (upper ''aosp4-i9505-nightly.zip'') aosp) = Inr False
   \<and> fst (matches ''i9505-ge-untouched-4.3-release.zip'' ge_MaKTaiL) = Inr True
   \<and> fst (matches (upper ''i9505-ge-untouched-4.3-release.zip'') ge_MaKTaiL) = Inr False"
proof -
  have 1: "fst (matches ''gapps-kk-20140615.zip'' gapps_gummy) = Inr True"
    by (simp add: matches_def re_search_def gapps_gummy_regex newline_def)
  have 2: "fst (matches ''aosp4-i9505-nightly.zip'' aosp) = Inr True"
    by (simp add: matches_def re_search_def aosp_regex newline_def)
  have 3: "fst (matches ''i9505-ge-untouched-4.3-release.zip'' ge_MaKTaiL) = Inr True"
    by (simp add: matches_def re_search_def ge_MaKTaiL_regex newline_def)
  show ?thesis
    using 1 2 3 matches_case_sensitive [of "''gapps-kk-20140615.zip''"]
      matches_case_sensitive [of "''aosp4-i9505-nightly.zip''"]
      matches_case_sensitive [of "''i9505-ge-untouched-4.3-release.zip''"]
    by blast
qed

subsection \<open>Anchoring\<close>



lemma chomp_keep: "g = [] \<or> last g \<noteq> newline \<Longrightarrow> chomp g = g"
  by (auto simp: chomp_def)








subsubsection \<open>AOSP\<close>




subsubsection \<open>Google Edition\<close>




subsubsection \<open>Gummy Google Apps\<close>



subsubsection \<open>The claim\<close>




end
